theory Spec2Isabelle
  imports Complex_Main "HOL-Library.Sublist"
begin

section \<open>Python strings\<close>

text \<open>
  A Python \<open>str\<close> is a sequence of Unicode code points, so a string is a list of
  code points (natural numbers). \<open>asc\<close> reads an ASCII literal of the source as such a
  list. The literals of \<open>weather_logic.py\<close> that are not ASCII are written out as
  their code points.
\<close>

type_synonym str = "nat list"

abbreviation asc :: "string \<Rightarrow> str" where
  "asc s \<equiv> map of_char s"

text \<open>
  \<open>str.strip()\<close> with no argument removes leading and trailing whitespace, that is
  the code points for which \<open>str.isspace()\<close> holds: U+0009..U+000D, U+001C..U+001F,
  U+0020, U+0085, U+00A0, U+1680, U+2000..U+200A, U+2028, U+2029, U+202F, U+205F, U+3000.
\<close>

definition is_space :: "nat \<Rightarrow> bool" where
  "is_space c \<longleftrightarrow>
     (9 \<le> c \<and> c \<le> 13) \<or> (28 \<le> c \<and> c \<le> 32) \<or> c = 133 \<or> c = 160 \<or> c = 5760 \<or>
     (8192 \<le> c \<and> c \<le> 8202) \<or> c = 8232 \<or> c = 8233 \<or> c = 8239 \<or> c = 8287 \<or> c = 12288"

definition lstrip :: "str \<Rightarrow> str" where
  "lstrip s = dropWhile is_space s"

definition rstrip :: "str \<Rightarrow> str" where
  "rstrip s = rev (dropWhile is_space (rev s))"

definition strip :: "str \<Rightarrow> str" where
  "strip s = rstrip (lstrip s)"

text \<open>
  \<open>str.splitlines()\<close> breaks at U+000A, U+000B, U+000C, U+000D, U+001C, U+001D, U+001E,
  U+0085, U+2028 and U+2029; a carriage return directly followed by a line feed is one
  break. The breaks are not kept, and a text that ends in a break has no empty line after
  it: \<open>"a\n".splitlines() == ["a"]\<close>, \<open>"".splitlines() == []\<close>.
\<close>

definition is_linebreak :: "nat \<Rightarrow> bool" where
  "is_linebreak c \<longleftrightarrow>
     (10 \<le> c \<and> c \<le> 13) \<or> (28 \<le> c \<and> c \<le> 30) \<or> c = 133 \<or> c = 8232 \<or> c = 8233"

fun cons_line :: "nat \<Rightarrow> str list \<Rightarrow> str list" where
  "cons_line c [] = [[c]]"
| "cons_line c (l # ls) = (c # l) # ls"

fun splitlines :: "str \<Rightarrow> str list" where
  "splitlines [] = []"
| "splitlines (c # cs) =
     (if c = 13 \<and> cs \<noteq> [] \<and> hd cs = 10 then [] # splitlines (tl cs)
      else if is_linebreak c then [] # splitlines cs
      else cons_line c (splitlines cs))"

text \<open>
  \<open>s.rsplit("\n", 1)[0]\<close>: the part of \<open>s\<close> before its last line feed, and all of
  \<open>s\<close> when it has none (the list returned by \<open>rsplit\<close> is never empty).
\<close>

definition rsplit_head :: "str \<Rightarrow> str" where
  "rsplit_head s =
     (if 10 \<in> set s then rev (tl (dropWhile (\<lambda>c. c \<noteq> 10) (rev s))) else s)"

section \<open>The decision extractor (\<open>main\<close>, lines 202 to 212)\<close>

datatype error = IndexError | KeyError | ValueError | OverflowError | UnicodeEncodeError

text \<open>
  The three subject literals of \<open>main\<close>. In the source file each starts with a few
  code points that are not ASCII, followed by a space; they are kept as they stand.
\<close>

definition SUBJECT_YES :: str where
  "SUBJECT_YES = [63743, 252, 232, 231, 212, 8719, 232] @ asc '' Ride Today: Yes''"

definition SUBJECT_NO :: str where
  "SUBJECT_NO = [8218, 246, 8224, 212, 8719, 232] @ asc '' Ride Today: No''"

definition SUBJECT_UNCLEAR :: str where
  "SUBJECT_UNCLEAR = [8218, 246, 8224, 212, 8719, 232] @ asc '' Ride Today: Unclear''"

definition UNCLEAR_NOTE :: str where
  "UNCLEAR_NOTE = [10, 10] @ asc ''(Note: Ride safety could not be determined automatically.)''"

text \<open>
  The source has no decision type: the decision is the branch of the \<open>if\<close> chain that
  is taken. The model names the branch in the result, next to the subject and the body
  that the branch assigns.
\<close>

datatype decision = SAFE | NOT_SAFE | UNCLEAR

record verdict =
  decision :: decision
  subject :: str
  body :: str

text \<open>
  \<open>ai_message.strip().splitlines()[-1].strip()\<close>: indexing the empty list raises
  \<open>IndexError\<close>.
\<close>

definition decision_line :: "str \<Rightarrow> error + str" where
  "decision_line ai_message =
     (case splitlines (strip ai_message) of
        [] \<Rightarrow> Inl IndexError
      | l # ls \<Rightarrow> Inr (strip (last (l # ls))))"

definition extract_decision :: "str \<Rightarrow> error + verdict" where
  "extract_decision ai_message =
     (case decision_line ai_message of
        Inl e \<Rightarrow> Inl e
      | Inr line \<Rightarrow>
          if line = asc ''[SAFE]'' then
            Inr \<lparr>decision = SAFE, subject = SUBJECT_YES,
                 body = strip (rsplit_head ai_message)\<rparr>
          else if line = asc ''[NOT SAFE]'' then
            Inr \<lparr>decision = NOT_SAFE, subject = SUBJECT_NO,
                 body = strip (rsplit_head ai_message)\<rparr>
          else
            Inr \<lparr>decision = UNCLEAR, subject = SUBJECT_UNCLEAR,
                 body = ai_message @ UNCLEAR_NOTE\<rparr>)"

section \<open>Values of the forecast\<close>

text \<open>
  A forecast block of the provider, as far as \<open>weather_logic.py\<close> reads it. The keys
  that the code indexes (\<open>dt_txt\<close>, \<open>weather\<close>, \<open>main.temp\<close>, \<open>wind.speed\<close>) are
  fields; the keys it reads with \<open>.get\<close> are optional. \<open>weather_descriptions\<close> lists
  the \<open>description\<close> of each item of the \<open>weather\<close> array, which may be empty.
  \<open>rain_field\<close> is \<open>None\<close> without a \<open>rain\<close> key, \<open>Some None\<close> for a \<open>rain\<close>
  object without the key \<open>3h\<close>.

  A JSON number is read as a Python \<open>int\<close> or as a \<open>float\<close>. \<open>PyFloat r\<close> is the
  finite float whose exact value is the rational \<open>r\<close>. Python compares an \<open>int\<close> and
  a \<open>float\<close> by their exact values, which is \<open>num\<close>.
\<close>

datatype number = PyInt int | PyFloat rat

fun num :: "number \<Rightarrow> rat" where
  "num (PyInt i) = of_int i"
| "num (PyFloat r) = r"

record entry =
  dt_txt :: str
  weather_descriptions :: "str list"
  main_temp :: number
  wind_speed :: number
  visibility_field :: "number option"
  rain_field :: "number option option"

record summary_record =
  description :: str
  temp :: number
  wind :: number
  visibility :: number
  rain :: number

text \<open>
  A Python \<open>dict\<close> keeps its keys in insertion order; assigning to a key that is present
  replaces the value where the key stands.
\<close>

type_synonym ('k, 'v) dict = "('k \<times> 'v) list"

fun dict_set :: "'k \<Rightarrow> 'v \<Rightarrow> ('k, 'v) dict \<Rightarrow> ('k, 'v) dict" where
  "dict_set k v [] = [(k, v)]"
| "dict_set k v ((k', v') # d) =
     (if k' = k then (k, v) # d else (k', v') # dict_set k v d)"

section \<open>Constants\<close>

definition COMMUTE_TARGETS :: "str list" where
  "COMMUTE_TARGETS = [asc ''06:00'', asc ''09:00'', asc ''12:00'', asc ''15:00'', asc ''18:00'']"

definition MIN_TEMP :: rat where
  "MIN_TEMP = 5"

definition MAX_WIND :: rat where
  "MAX_WIND = 20"

definition BAD_WEATHER :: "str list" where
  "BAD_WEATHER = [asc ''snow'', asc ''thunderstorm'', asc ''hail'']"

definition DANGEROUS_RAIN :: "str list" where
  "DANGEROUS_RAIN = [asc ''heavy intensity rain'', asc ''very heavy rain'', asc ''extreme rain'']"

section \<open>\<open>match_time_slots\<close>\<close>

record datetime =
  year :: nat
  month :: nat
  day :: nat
  hour :: nat
  minute :: nat
  second :: nat

text \<open>\<open>time_obj.strftime("%H:%M")\<close>: hour and minute, two decimal digits each.\<close>

definition two_digits :: "nat \<Rightarrow> str" where
  "two_digits n = [48 + n div 10, 48 + n mod 10]"

definition strftime_HM :: "datetime \<Rightarrow> str" where
  "strftime_HM d = two_digits (hour d) @ [58] @ two_digits (minute d)"

text \<open>
  The parser \<open>datetime.strptime(_, "%Y-%m-%d %H:%M:%S")\<close> of the standard library is the
  parameter \<open>strptime\<close>; \<open>Inl ValueError\<close> is its exception. The loop stops at the first
  entry whose stamp does not parse, as the exception does.
\<close>

fun match_loop ::
  "(str \<Rightarrow> error + datetime) \<Rightarrow> entry list \<Rightarrow> str list \<Rightarrow> (str, entry) dict
     \<Rightarrow> error + (str, entry) dict" where
  "match_loop strptime [] target_times results = Inr results"
| "match_loop strptime (e # forecast) target_times results =
     (case strptime (dt_txt e) of
        Inl err \<Rightarrow> Inl err
      | Inr time_obj \<Rightarrow>
          (let time_only = strftime_HM time_obj in
             if time_only \<in> set target_times
             then match_loop strptime forecast target_times (dict_set time_only e results)
             else match_loop strptime forecast target_times results))"

definition match_time_slots ::
  "(str \<Rightarrow> error + datetime) \<Rightarrow> entry list \<Rightarrow> str list \<Rightarrow> error + (str, entry) dict" where
  "match_time_slots strptime forecast target_times =
     match_loop strptime forecast target_times []"

section \<open>\<open>simplify_forecast\<close> and \<open>summarize_forecast\<close>\<close>

definition simplify_forecast :: "entry \<Rightarrow> error + summary_record" where
  "simplify_forecast e =
     (case weather_descriptions e of
        [] \<Rightarrow> Inl IndexError
      | d # _ \<Rightarrow>
          Inr \<lparr>description = d,
               temp = main_temp e,
               wind = wind_speed e,
               visibility = (case visibility_field e of None \<Rightarrow> PyInt 10000 | Some v \<Rightarrow> v),
               rain = (case rain_field e of
                         None \<Rightarrow> PyInt 0
                       | Some None \<Rightarrow> PyInt 0
                       | Some (Some v) \<Rightarrow> v)\<rparr>)"

fun summarize_forecast :: "(str, entry) dict \<Rightarrow> error + (str, summary_record) dict" where
  "summarize_forecast [] = Inr []"
| "summarize_forecast ((time, data) # slots) =
     (case simplify_forecast data of
        Inl err \<Rightarrow> Inl err
      | Inr r \<Rightarrow>
          (case summarize_forecast slots of
             Inl err \<Rightarrow> Inl err
           | Inr rest \<Rightarrow> Inr ((time, r) # rest)))"

section \<open>\<open>assess_weather_conditions\<close>\<close>

text \<open>
  A reason is one of the five formatted strings of the source; the model keeps the
  three things the format string is filled with: the rule, the slot and the value
  (a number is printed differently as an \<open>int\<close> and as a \<open>float\<close>).
\<close>

datatype reason =
    Temperature_too_low str number
  | Wind_speed_too_high str number
  | Dangerous_weather str str
  | Poor_visibility str number
  | Heavy_rain str number

text \<open>\<open>bad in weather\<close>: \<open>bad\<close> occurs in \<open>weather\<close> as a contiguous piece.\<close>

fun str_in :: "str \<Rightarrow> str \<Rightarrow> bool" where
  "str_in bad [] = (bad = [])"
| "str_in bad (c # cs) = (prefix bad (c # cs) \<or> str_in bad cs)"

text \<open>
  One pass of the loop body on the pair \<open>(safe, reasons)\<close>. \<open>lower\<close> is
  \<open>str.lower\<close>, whose case table belongs to the standard library: a parameter.
\<close>

definition check_slot ::
  "(str \<Rightarrow> str) \<Rightarrow> str \<Rightarrow> summary_record \<Rightarrow> bool \<times> reason list \<Rightarrow> bool \<times> reason list" where
  "check_slot lower time data st =
     (let weather = lower (description data);
          st1 = (if num (temp data) < MIN_TEMP
                 then (False, snd st @ [Temperature_too_low time (temp data)]) else st);
          st2 = (if num (wind data) > MAX_WIND
                 then (False, snd st1 @ [Wind_speed_too_high time (wind data)]) else st1);
          st3 = (if list_ex (\<lambda>bad. str_in bad weather) (BAD_WEATHER @ DANGEROUS_RAIN)
                 then (False, snd st2 @ [Dangerous_weather time weather]) else st2);
          st4 = (if num (visibility data) < 3000
                 then (False, snd st3 @ [Poor_visibility time (visibility data)]) else st3);
          st5 = (if num (rain data) \<ge> 2
                 then (False, snd st4 @ [Heavy_rain time (rain data)]) else st4)
      in st5)"

fun assess_loop ::
  "(str \<Rightarrow> str) \<Rightarrow> (str, summary_record) dict \<Rightarrow> bool \<times> reason list \<Rightarrow> bool \<times> reason list" where
  "assess_loop lower [] st = st"
| "assess_loop lower ((time, data) # summary) st =
     assess_loop lower summary (check_slot lower time data st)"

definition assess_weather_conditions ::
  "(str \<Rightarrow> str) \<Rightarrow> (str, summary_record) dict \<Rightarrow> bool \<times> reason list" where
  "assess_weather_conditions lower summary = assess_loop lower summary (True, [])"

section \<open>The run: \<open>main\<close>\<close>

text \<open>
  What the outside world answers during one run. \<open>http\<close> is the outcome of the
  request in \<open>fetch_weather_forecast\<close>: a \<open>RequestException\<close> (no connection, timeout,
  error status), a JSON object without the key \<open>list\<close>, or the list of forecast blocks.
  \<open>chat\<close> is the outcome of the call to the text service in \<open>ai_generate_summary\<close>:
  the content of the completion, or an exception with its message. The prompt is built
  from rounded floats, the clock and the iteration order of a set; the reply of the
  service is not a function of it, so the model takes the reply from the world.
  \<open>weekday\<close> is \<open>datetime.today().weekday()\<close>.
\<close>

datatype http_outcome = Request_exception | No_list_key | Forecast_list "entry list"

datatype chat_outcome = Content str | Raised str

record world =
  weekday :: nat
  http :: http_outcome
  chat :: chat_outcome

definition get_day_type :: "world \<Rightarrow> str" where
  "get_day_type w = (if weekday w < 5 then asc ''weekday'' else asc ''weekend'')"

text \<open>
  \<open>fetch_weather_forecast\<close> returns \<open>None\<close> when the request raises a
  \<open>RequestException\<close>; a missing key \<open>list\<close> is a \<open>KeyError\<close> that it does not catch.
\<close>

definition fetch_weather_forecast :: "world \<Rightarrow> error + entry list option" where
  "fetch_weather_forecast w =
     (case http w of
        Request_exception \<Rightarrow> Inr None
      | No_list_key \<Rightarrow> Inl KeyError
      | Forecast_list l \<Rightarrow> Inr (Some l))"

text \<open>
  The digest of \<open>ai_generate_summary\<close> (lines 106 to 113) adds and divides the
  numbers before the \<open>try\<close>. The values of the floats it computes are not modelled;
  what the lines can raise is. Converting an \<open>int\<close> to a \<open>float\<close> raises
  \<open>OverflowError\<close> when its magnitude reaches \<open>2 ^ 1024 - 2 ^ 970\<close>, and so does
  the division of two \<open>int\<close>s when the quotient reaches it; arithmetic on floats
  never raises.

  \<open>sum\<close> starts from the \<open>int\<close> 0 and adds the items in order. The running sum is
  an exact \<open>int\<close> as long as all items are; adding a \<open>float\<close> converts it, and from
  then on every \<open>int\<close> item is converted as it is added.
\<close>

definition FLOAT_LIMIT :: int where
  "FLOAT_LIMIT = 2 ^ 1024 - 2 ^ 970"

datatype running = Exact int | Inexact

fun sum_loop :: "number list \<Rightarrow> running \<Rightarrow> error + running" where
  "sum_loop [] r = Inr r"
| "sum_loop (PyInt n # xs) (Exact a) = sum_loop xs (Exact (a + n))"
| "sum_loop (PyFloat x # xs) (Exact a) =
     (if \<bar>a\<bar> < FLOAT_LIMIT then sum_loop xs Inexact else Inl OverflowError)"
| "sum_loop (PyInt n # xs) Inexact =
     (if \<bar>n\<bar> < FLOAT_LIMIT then sum_loop xs Inexact else Inl OverflowError)"
| "sum_loop (PyFloat x # xs) Inexact = sum_loop xs Inexact"

definition py_sum :: "number list \<Rightarrow> error + running" where
  "py_sum xs = sum_loop xs (Exact 0)"

text \<open>
  \<open>avg_temp = round(sum(temps) / len(temps), 1) if temps else None\<close> and
  \<open>total_rain = round(sum(rains), 1) if rains else 0\<close>, as far as they raise;
  \<open>max(winds)\<close>, \<open>round\<close> with one digit and the comparisons of \<open>total_rain\<close>
  do not.
\<close>

definition avg_temp :: "number list \<Rightarrow> error + unit" where
  "avg_temp temps =
     (if temps = [] then Inr ()
      else case py_sum temps of
             Inl err \<Rightarrow> Inl err
           | Inr (Exact a) \<Rightarrow>
               if \<bar>a\<bar> < FLOAT_LIMIT * int (length temps) then Inr () else Inl OverflowError
           | Inr Inexact \<Rightarrow> Inr ())"

definition total_rain :: "number list \<Rightarrow> error + unit" where
  "total_rain rains =
     (if rains = [] then Inr ()
      else case py_sum rains of Inl err \<Rightarrow> Inl err | Inr r \<Rightarrow> Inr ())"

text \<open>
  \<open>ai_generate_summary\<close> computes the digest, then returns the stripped content, or
  the fallback text when the call of the service raises.
\<close>

definition ai_generate_summary ::
  "world \<Rightarrow> (str, summary_record) dict \<Rightarrow> bool \<Rightarrow> reason list \<Rightarrow> bool \<Rightarrow> error + str" where
  "ai_generate_summary w summary safe reasons is_weekday =
     (let temps = map (\<lambda>(time, data). temp data) summary;
          rains = map (\<lambda>(time, data). rain data) summary in
      case avg_temp temps of
        Inl err \<Rightarrow> Inl err
      | Inr _ \<Rightarrow>
          (case total_rain rains of
             Inl err \<Rightarrow> Inl err
           | Inr _ \<Rightarrow>
               (case chat w of
                  Content c \<Rightarrow> Inr (strip c)
                | Raised e \<Rightarrow> Inr (asc ''(AI summary failed): '' @ e))))"

text \<open>
  \<open>send_email\<close> builds \<open>MIMEText(body, "plain")\<close> before its \<open>try\<close>: a body
  that is not ASCII is encoded as UTF-8 with the handler \<open>surrogateescape\<close>, which
  raises \<open>UnicodeEncodeError\<close> on a surrogate code point outside U+DC80..U+DCFF.
  What follows is inside the \<open>try\<close>, whose handler catches every failure of the
  transport, so the call then returns.
\<close>

definition unencodable :: "nat \<Rightarrow> bool" where
  "unencodable c \<longleftrightarrow> (55296 \<le> c \<and> c \<le> 56447) \<or> (56576 \<le> c \<and> c \<le> 57343)"

definition send_email :: "str \<Rightarrow> str \<Rightarrow> error + unit" where
  "send_email subj text =
     (if list_ex unencodable text then Inl UnicodeEncodeError else Inr ())"

text \<open>
  A run is recorded as the calls \<open>main\<close> makes, in order, and the way it ends:
  \<open>Inr ()\<close> for a normal return, \<open>Inl e\<close> for an exception that leaves \<open>main\<close>.
  \<open>Send_email s b\<close> is the call \<open>send_email(s, b)\<close>, one submission to the mail
  transport when it returns.
\<close>

datatype call =
    Get_day_type
  | Fetch_weather_forecast
  | Match_time_slots
  | Summarize_forecast
  | Assess_weather_conditions
  | Ai_generate_summary
  | Send_email str str

record run =
  calls :: "call list"
  outcome :: "error + unit"

definition main :: "(str \<Rightarrow> error + datetime) \<Rightarrow> (str \<Rightarrow> str) \<Rightarrow> world \<Rightarrow> run" where
  "main strptime lower w =
     (let day_type = get_day_type w;
          c1 = [Get_day_type, Fetch_weather_forecast] in
      case fetch_weather_forecast w of
        Inl err \<Rightarrow> \<lparr>calls = c1, outcome = Inl err\<rparr>
      | Inr forecast_data \<Rightarrow>
          if forecast_data = None \<or> forecast_data = Some [] then
            \<lparr>calls = c1 @ [Send_email (asc ''Ride Assistant Error'')
                                      (asc ''Could not retrieve forecast.'')],
             outcome = send_email (asc ''Ride Assistant Error'')
                                  (asc ''Could not retrieve forecast.'')\<rparr>
          else
            (let c2 = c1 @ [Match_time_slots] in
             case match_time_slots strptime (the forecast_data) COMMUTE_TARGETS of
               Inl err \<Rightarrow> \<lparr>calls = c2, outcome = Inl err\<rparr>
             | Inr slots \<Rightarrow>
                 if slots = [] then
                   \<lparr>calls = c2 @ [Send_email (asc ''Ride Assistant Error'')
                                            (asc ''No matching forecast slots found.'')],
                    outcome = send_email (asc ''Ride Assistant Error'')
                                         (asc ''No matching forecast slots found.'')\<rparr>
                 else
                   (let c3 = c2 @ [Summarize_forecast] in
                    case summarize_forecast slots of
                      Inl err \<Rightarrow> \<lparr>calls = c3, outcome = Inl err\<rparr>
                    | Inr summary \<Rightarrow>
                        (let (safe, reasons) = assess_weather_conditions lower summary;
                             c4 = c3 @ [Assess_weather_conditions, Ai_generate_summary] in
                         case ai_generate_summary w summary safe reasons
                                (day_type = asc ''weekday'') of
                           Inl err \<Rightarrow> \<lparr>calls = c4, outcome = Inl err\<rparr>
                         | Inr ai_message \<Rightarrow>
                             (case extract_decision ai_message of
                                Inl err \<Rightarrow> \<lparr>calls = c4, outcome = Inl err\<rparr>
                              | Inr v \<Rightarrow>
                                  \<lparr>calls = c4 @ [Send_email (subject v) (body v)],
                                   outcome = send_email (subject v) (body v)\<rparr>)))))"

section \<open>Notions used in the statements\<close>

text \<open>
  \<open>ends_with_line t X\<close>: the text \<open>t\<close> ends with \<open>X\<close>, and \<open>X\<close> starts a line
  there: it is the whole text, or the code point before it is a line break.
\<close>

definition ends_with_line :: "str \<Rightarrow> str \<Rightarrow> bool" where
  "ends_with_line t X \<longleftrightarrow>
     drop (length t - length X) t = X \<and>
     (length t \<le> length X \<or> is_linebreak (t ! (length t - length X - 1)))"

text \<open>
  The time of day of a forecast block, as \<open>match_time_slots\<close> computes it (lines 44
  to 46): the stamp parsed and printed again as hours and minutes.
\<close>

definition time_of_day :: "(str \<Rightarrow> error + datetime) \<Rightarrow> entry \<Rightarrow> error + str" where
  "time_of_day strptime e =
     (case strptime (dt_txt e) of Inl err \<Rightarrow> Inl err | Inr d \<Rightarrow> Inr (strftime_HM d))"

text \<open>
  Values for the examples. \<open>ascii_lower\<close> is \<open>str.lower\<close> on ASCII text.
  \<open>strptime_excerpt\<close> is \<open>datetime.strptime\<close> on three stamps in the format of the
  provider, and is only applied to these. \<open>forecast_block\<close> and \<open>summary_of\<close> build
  a forecast block and a summary record.
\<close>

definition ascii_lower :: "str \<Rightarrow> str" where
  "ascii_lower s = map (\<lambda>c. if 65 \<le> c \<and> c \<le> 90 then c + 32 else c) s"

definition strptime_excerpt :: "str \<Rightarrow> error + datetime" where
  "strptime_excerpt s =
     (if s = asc ''2024-05-01 03:00:00'' then
        Inr \<lparr>year = 2024, month = 5, day = 1, hour = 3, minute = 0, second = 0\<rparr>
      else if s = asc ''2024-05-01 06:00:00'' then
        Inr \<lparr>year = 2024, month = 5, day = 1, hour = 6, minute = 0, second = 0\<rparr>
      else if s = asc ''2024-05-02 06:00:00'' then
        Inr \<lparr>year = 2024, month = 5, day = 2, hour = 6, minute = 0, second = 0\<rparr>
      else Inl ValueError)"

definition forecast_block :: "str \<Rightarrow> number \<Rightarrow> entry" where
  "forecast_block stamp t =
     \<lparr>dt_txt = stamp, weather_descriptions = [asc ''clear sky''], main_temp = t,
      wind_speed = PyFloat 5, visibility_field = Some (PyInt 10000), rain_field = None\<rparr>"

definition summary_of :: "number \<Rightarrow> number \<Rightarrow> summary_record" where
  "summary_of t r =
     \<lparr>description = asc ''light rain'', temp = t, wind = PyFloat 5, visibility = PyInt 10000,
      rain = r\<rparr>"

section \<open>Facts about \<open>strip\<close> and \<open>splitlines\<close>\<close>

lemma linebreak_is_space: "is_linebreak c \<Longrightarrow> is_space c"
  by (auto simp: is_linebreak_def is_space_def)

lemma splitlines_Nil_iff: "splitlines s = [] \<longleftrightarrow> s = []"
  by (cases s; cases "splitlines (tl s)") auto

lemma cons_line_not_Nil: "cons_line c ls \<noteq> []"
  by (cases ls) auto

lemma cons_line_append: "ls \<noteq> [] \<Longrightarrow> cons_line c (ls @ ms) = cons_line c ls @ ms"
  by (cases ls) auto

lemma splitlines_no_break:
  "s \<noteq> [] \<Longrightarrow> \<forall>c\<in>set s. \<not> is_linebreak c \<Longrightarrow> splitlines s = [s]"
proof (induction s)
  case Nil
  then show ?case by simp
next
  case (Cons c s)
  have nb: "\<not> is_linebreak c" using Cons.prems by simp
  then have c13: "c \<noteq> 13" by (auto simp: is_linebreak_def)
  show ?case
  proof (cases "s = []")
    case True
    then show ?thesis using nb c13 by simp
  next
    case False
    then have "splitlines s = [s]" using Cons by simp
    then show ?thesis using nb c13 by simp
  qed
qed

lemma splitlines_append_break:
  "is_linebreak c \<Longrightarrow> \<not> (c = 13 \<and> r \<noteq> [] \<and> hd r = 10) \<Longrightarrow>
   splitlines (q @ c # r) = splitlines (q @ [c]) @ splitlines r"
proof (induction q rule: length_induct)
  case (1 q)
  show ?case
  proof (cases q)
    case Nil
    then show ?thesis using "1.prems" by auto
  next
    case (Cons x q')
    show ?thesis
    proof (cases "x = 13 \<and> q' @ c # r \<noteq> [] \<and> hd (q' @ c # r) = 10")
      case True
      show ?thesis
      proof (cases q')
        case Nil
        then show ?thesis using True Cons "1.prems" by auto
      next
        case (Cons y q'')
        have "length q'' < length q" using \<open>q = x # q'\<close> Cons by simp
        then have "splitlines (q'' @ c # r) = splitlines (q'' @ [c]) @ splitlines r"
          using "1.IH" "1.prems" by blast
        then show ?thesis using True Cons \<open>q = x # q'\<close> by simp
      qed
    next
      case False
      have len: "length q' < length q" using Cons by simp
      have ih: "splitlines (q' @ c # r) = splitlines (q' @ [c]) @ splitlines r"
        using "1.IH" "1.prems" len by blast
      have ne: "splitlines (q' @ [c]) \<noteq> []" by (simp add: splitlines_Nil_iff)
      have hd_eq: "hd (q' @ c # r) = hd (q' @ [c])" by (cases q') auto
      show ?thesis
      proof (cases "x = 13")
        case True
        then have "hd (q' @ [c]) \<noteq> 10" using False hd_eq by simp
        then show ?thesis
          using True hd_eq Cons ih by (simp add: is_linebreak_def)
      next
        case x: False
        show ?thesis
          using x Cons ih ne by (simp add: cons_line_append)
      qed
    qed
  qed
qed

lemma last_splitlines_after_break:
  assumes "is_linebreak c" "X \<noteq> []" "\<forall>x\<in>set X. \<not> is_linebreak x"
  shows "last (splitlines (q @ c # X)) = X"
proof -
  have "hd X \<in> set X" using assms(2) by simp
  then have "\<not> is_linebreak (hd X)" using assms(3) by blast
  then have "hd X \<noteq> 10" by (auto simp: is_linebreak_def)
  then have "splitlines (q @ c # X) = splitlines (q @ [c]) @ splitlines X"
    using splitlines_append_break [of c X q] assms(1) by blast
  then show ?thesis using splitlines_no_break [OF assms(2,3)] by simp
qed

lemma rstrip_Nil_iff: "rstrip s = [] \<longleftrightarrow> (\<forall>c\<in>set s. is_space c)"
  by (auto simp: rstrip_def)

lemma lstrip_Nil_iff: "lstrip s = [] \<longleftrightarrow> (\<forall>c\<in>set s. is_space c)"
  by (auto simp: lstrip_def)

lemma rstrip_append: "rstrip X \<noteq> [] \<Longrightarrow> rstrip (q @ X) = q @ rstrip X"
  by (auto simp: rstrip_def dropWhile_append)

lemma rstrip_prefix: "prefix (rstrip s) s"
proof -
  have "s = rstrip s @ rev (takeWhile is_space (rev s))"
    unfolding rstrip_def
    by (metis rev_append rev_rev_ident takeWhile_dropWhile_id)
  then show ?thesis by (metis prefixI)
qed

lemma rstrip_idem: "rstrip (rstrip s) = rstrip s"
  by (simp add: rstrip_def)

lemma lstrip_id: "s \<noteq> [] \<Longrightarrow> \<not> is_space (hd s) \<Longrightarrow> lstrip s = s"
  by (cases s) (auto simp: lstrip_def)

lemma strip_Nil_iff: "strip s = [] \<longleftrightarrow> (\<forall>c\<in>set s. is_space c)"
proof -
  have "set (lstrip s) \<subseteq> set s" unfolding lstrip_def by (auto dest: set_dropWhileD)
  moreover have "lstrip s \<noteq> [] \<Longrightarrow> \<not> is_space (hd (lstrip s))"
    unfolding lstrip_def by (simp add: hd_dropWhile)
  ultimately show ?thesis
    unfolding strip_def rstrip_Nil_iff
    by (metis lstrip_Nil_iff list.set_sel(1) empty_iff list.set(1))
qed

lemmas strip_defs = strip_def lstrip_def rstrip_def is_space_def

section \<open>The line that decides\<close>

text \<open>
  A text made of whitespace only has no line: the index \<open>[-1]\<close> fails. Every other
  text has a decision line. When the text ends with a line \<open>X\<close> that starts with a
  code point other than whitespace, the decision line is \<open>X\<close> without its trailing
  whitespace.
\<close>

lemma decision_line_last:
  "splitlines (strip t) \<noteq> [] \<Longrightarrow>
   decision_line t = Inr (strip (last (splitlines (strip t))))"
  by (cases "splitlines (strip t)") (simp_all add: decision_line_def)

lemma ends_with_lineD:
  assumes "ends_with_line t X"
  obtains p where "t = p @ X" and "p = [] \<or> is_linebreak (last p)"
proof -
  define n where "n = length t - length X"
  have d: "drop n t = X" using assms by (simp add: ends_with_line_def n_def)
  have t: "t = take n t @ X" using d by (metis append_take_drop_id)
  show thesis
  proof (cases "length t \<le> length X")
    case True
    then have "take n t = []" by (simp add: n_def)
    then show ?thesis using t that by simp
  next
    case False
    then have n: "0 < n" "n \<le> length t" by (simp_all add: n_def)
    have lb: "is_linebreak (t ! (n - 1))"
      using assms False by (simp add: ends_with_line_def n_def)
    have ne: "take n t \<noteq> []" using n False by auto
    have "last (take n t) = take n t ! (n - 1)"
      using ne n by (simp add: last_conv_nth min_def)
    also have "\<dots> = t ! (n - 1)" using n by simp
    finally show ?thesis using t lb that by metis
  qed
qed

lemma last_dropWhile: "dropWhile P xs \<noteq> [] \<Longrightarrow> last (dropWhile P xs) = last xs"
  by (metis last_appendR takeWhile_dropWhile_id)

lemma decision_line_ending:
  assumes e: "ends_with_line t X" and ne: "X \<noteq> []" and h: "\<not> is_space (hd X)"
    and nb: "\<forall>x\<in>set X. \<not> is_linebreak x"
  shows "decision_line t = Inr (rstrip X)"
proof -
  obtain p where t: "t = p @ X" and p: "p = [] \<or> is_linebreak (last p)"
    using e by (rule ends_with_lineD)
  have hX: "hd X \<in> set X" using ne by simp
  have rne: "rstrip X \<noteq> []" using hX h by (auto simp: rstrip_Nil_iff)
  have pre: "prefix (rstrip X) X" by (rule rstrip_prefix)
  then have sub: "set (rstrip X) \<subseteq> set X" by (rule set_mono_prefix)
  have hd_r: "hd (rstrip X) = hd X" using pre rne by (metis hd_append2 prefixE)
  have nb': "\<forall>x\<in>set (rstrip X). \<not> is_linebreak x" using nb sub by blast
  have sfix: "strip (rstrip X) = rstrip X"
    using rne h hd_r by (simp add: strip_def lstrip_id rstrip_idem)
  obtain q where l: "lstrip t = q @ X" and q: "q = [] \<or> is_linebreak (last q)"
  proof (cases "\<forall>x\<in>set p. is_space x")
    case True
    then have "lstrip t = lstrip X" by (simp add: t lstrip_def)
    then have "lstrip t = [] @ X" using ne h by (simp add: lstrip_id)
    then show ?thesis using that by blast
  next
    case False
    then have pne: "p \<noteq> []" by auto
    have dne: "dropWhile is_space p \<noteq> []" using False by simp
    have "lstrip t = dropWhile is_space p @ X"
      using False by (auto simp: t lstrip_def dropWhile_append)
    moreover have "is_linebreak (last (dropWhile is_space p))"
      using p pne dne by (simp add: last_dropWhile)
    ultimately show ?thesis using that by blast
  qed
  have s: "strip t = q @ rstrip X"
    using l rne by (simp add: strip_def rstrip_append)
  show ?thesis
  proof (cases "q = []")
    case True
    then have "splitlines (strip t) = [rstrip X]"
      using s rne nb' by (simp add: splitlines_no_break)
    then show ?thesis using sfix by (simp add: decision_line_def)
  next
    case False
    then have lb: "is_linebreak (last q)" using q by simp
    have "strip t = butlast q @ last q # rstrip X"
      using s False by (metis append.assoc append_Cons append_Nil append_butlast_last_id)
    then have sp: "strip t = butlast q @ last q # rstrip X" .
    have "last (splitlines (strip t)) = rstrip X"
      unfolding sp using lb rne nb' by (rule last_splitlines_after_break)
    moreover have "splitlines (strip t) \<noteq> []"
      using sp by (simp add: splitlines_Nil_iff)
    ultimately show ?thesis using sfix by (simp add: decision_line_last)
  qed
qed

lemma ends_with_line_self: "ends_with_line X X"
  by (simp add: ends_with_line_def)

lemma ends_with_line_after_break: "is_linebreak c \<Longrightarrow> ends_with_line (pre @ c # X) X"
  by (simp add: ends_with_line_def nth_append)

lemma decision_line_total:
  "\<not> (\<forall>c\<in>set t. is_space c) \<Longrightarrow> \<exists>l. decision_line t = Inr l"
  using decision_line_last [of t] by (simp add: splitlines_Nil_iff strip_Nil_iff)

lemma decision_line_blank:
  "\<forall>c\<in>set t. is_space c \<Longrightarrow> decision_line t = Inl IndexError"
  using strip_Nil_iff [of t] by (simp add: decision_line_def)

lemma unclear_branch:
  assumes "\<not> (\<forall>c\<in>set t. is_space c)"
    and "decision_line t \<noteq> Inr (asc ''[SAFE]'')"
    and "decision_line t \<noteq> Inr (asc ''[NOT SAFE]'')"
  shows "extract_decision t =
           Inr \<lparr>decision = UNCLEAR, subject = SUBJECT_UNCLEAR, body = t @ UNCLEAR_NOTE\<rparr>"
proof -
  obtain l where l: "decision_line t = Inr l"
    using decision_line_total [OF assms(1)] by blast
  show ?thesis using assms(2,3) unfolding l extract_decision_def by simp
qed

lemma extract_decision_error_iff:
  "extract_decision t = Inl IndexError \<longleftrightarrow> (\<forall>c\<in>set t. is_space c)"
proof
  assume "extract_decision t = Inl IndexError"
  show "\<forall>c\<in>set t. is_space c"
  proof (rule ccontr)
    assume "\<not> (\<forall>c\<in>set t. is_space c)"
    then obtain l where "decision_line t = Inr l"
      using decision_line_total by blast
    then have "\<exists>v. extract_decision t = Inr v"
      by (simp add: extract_decision_def)
    then show False using \<open>extract_decision t = Inl IndexError\<close> by auto
  qed
next
  assume "\<forall>c\<in>set t. is_space c"
  then show "extract_decision t = Inl IndexError"
    by (simp add: extract_decision_def decision_line_blank)
qed

lemma rsplit_head_after_line_feed: "10 \<notin> set X \<Longrightarrow> rsplit_head (pre @ 10 # X) = pre"
proof -
  assume a: "10 \<notin> set X"
  have "dropWhile (\<lambda>c. c \<noteq> 10) (rev X @ 10 # rev pre) = 10 # rev pre"
    using a by (subst dropWhile_append2) auto
  then show ?thesis by (simp add: rsplit_head_def)
qed

lemma tag_line_removed_after_line_feed:
  "extract_decision (pre @ 10 # asc ''[SAFE]'') =
     Inr \<lparr>decision = SAFE, subject = SUBJECT_YES, body = strip pre\<rparr>"
  "extract_decision (pre @ 10 # asc ''[NOT SAFE]'') =
     Inr \<lparr>decision = NOT_SAFE, subject = SUBJECT_NO, body = strip pre\<rparr>"
proof -
  have lb: "is_linebreak 10" by (simp add: is_linebreak_def)
  have "decision_line (pre @ 10 # asc ''[SAFE]'') = Inr (rstrip (asc ''[SAFE]''))"
    by (rule decision_line_ending [OF ends_with_line_after_break [OF lb]])
      (simp_all add: is_space_def is_linebreak_def)
  then have d1: "decision_line (pre @ 10 # asc ''[SAFE]'') = Inr (asc ''[SAFE]'')"
    by (simp add: rstrip_def is_space_def)
  have "decision_line (pre @ 10 # asc ''[NOT SAFE]'') = Inr (rstrip (asc ''[NOT SAFE]''))"
    by (rule decision_line_ending [OF ends_with_line_after_break [OF lb]])
      (simp_all add: is_space_def is_linebreak_def)
  then have d2: "decision_line (pre @ 10 # asc ''[NOT SAFE]'') = Inr (asc ''[NOT SAFE]'')"
    by (simp add: rstrip_def is_space_def)
  have r1: "rsplit_head (pre @ 10 # asc ''[SAFE]'') = pre"
    by (rule rsplit_head_after_line_feed) simp
  have r2: "rsplit_head (pre @ 10 # asc ''[NOT SAFE]'') = pre"
    by (rule rsplit_head_after_line_feed) simp
  show "extract_decision (pre @ 10 # asc ''[SAFE]'') =
     Inr \<lparr>decision = SAFE, subject = SUBJECT_YES, body = strip pre\<rparr>"
    unfolding extract_decision_def d1 r1 by simp
  show "extract_decision (pre @ 10 # asc ''[NOT SAFE]'') =
     Inr \<lparr>decision = NOT_SAFE, subject = SUBJECT_NO, body = strip pre\<rparr>"
    unfolding extract_decision_def d2 r2 by simp
qed

section \<open>The decision extractor\<close>

text \<open>
  Claim C1, as the code has it. The final line is compared after its surrounding
  whitespace is trimmed, and the comparison is exact and sensitive to case: a text that
  ends with the line \<open>[safe]\<close> is classified \<open>UNCLEAR\<close>, with the subject of that
  branch and the note appended to the full text; a text that ends with the line
  \<open>[SAFE]\<close> followed by a space is classified \<open>SAFE\<close>.
\<close>

theorem final_line_compared_after_trim:
  "(ends_with_line t (asc ''[safe]'') \<longrightarrow>
      extract_decision t =
        Inr \<lparr>decision = UNCLEAR, subject = SUBJECT_UNCLEAR, body = t @ UNCLEAR_NOTE\<rparr>) \<and>
   (ends_with_line t (asc ''[SAFE] '') \<longrightarrow>
      (\<exists>b. extract_decision t = Inr \<lparr>decision = SAFE, subject = SUBJECT_YES, body = b\<rparr>))"
proof (intro conjI impI)
  assume e: "ends_with_line t (asc ''[safe]'')"
  have "decision_line t = Inr (rstrip (asc ''[safe]''))"
    by (rule decision_line_ending [OF e]) (simp_all add: is_space_def is_linebreak_def)
  then have d: "decision_line t = Inr (asc ''[safe]'')"
    by (simp add: rstrip_def is_space_def)
  show "extract_decision t =
        Inr \<lparr>decision = UNCLEAR, subject = SUBJECT_UNCLEAR, body = t @ UNCLEAR_NOTE\<rparr>"
    unfolding extract_decision_def d by simp
next
  assume e: "ends_with_line t (asc ''[SAFE] '')"
  have "decision_line t = Inr (rstrip (asc ''[SAFE] ''))"
    by (rule decision_line_ending [OF e]) (simp_all add: is_space_def is_linebreak_def)
  then have d: "decision_line t = Inr (asc ''[SAFE]'')"
    by (simp add: rstrip_def is_space_def)
  show "\<exists>b. extract_decision t = Inr \<lparr>decision = SAFE, subject = SUBJECT_YES, body = b\<rparr>"
    unfolding extract_decision_def d by simp
qed

theorem final_line_compared_after_trim_witness:
  "ends_with_line (asc ''Mild.'' @ [10] @ asc ''[safe]'') (asc ''[safe]'') \<and>
   extract_decision (asc ''Mild.'' @ [10] @ asc ''[safe]'') =
     Inr \<lparr>decision = UNCLEAR, subject = SUBJECT_UNCLEAR,
          body = (asc ''Mild.'' @ [10] @ asc ''[safe]'') @ UNCLEAR_NOTE\<rparr> \<and>
   ends_with_line (asc ''Mild.'' @ [13, 10] @ asc ''[SAFE] '') (asc ''[SAFE] '') \<and>
   (\<exists>b. extract_decision (asc ''Mild.'' @ [13, 10] @ asc ''[SAFE] '') =
     Inr \<lparr>decision = SAFE, subject = SUBJECT_YES, body = b\<rparr>)"
proof -
  have h1: "ends_with_line (asc ''Mild.'' @ [10] @ asc ''[safe]'') (asc ''[safe]'')"
    by (simp add: ends_with_line_def is_linebreak_def)
  have h2: "ends_with_line (asc ''Mild.'' @ [13, 10] @ asc ''[SAFE] '') (asc ''[SAFE] '')"
    by (simp add: ends_with_line_def is_linebreak_def)
  show ?thesis
    using h1 h2
      final_line_compared_after_trim [of "asc ''Mild.'' @ [10] @ asc ''[safe]''"]
      final_line_compared_after_trim [of "asc ''Mild.'' @ [13, 10] @ asc ''[SAFE] ''"]
    by blast
qed

text \<open>
  Claim C1 as it is stated fails on the code: the text \<open>"Dry roads.\n[SAFE] "\<close> ends with
  the line \<open>[SAFE]\<close> followed by a space, and the extractor answers \<open>SAFE\<close>, not
  \<open>UNCLEAR\<close>.
\<close>

theorem trailing_space_tag_counterexample:
  "ends_with_line (asc ''Dry roads.'' @ [10] @ asc ''[SAFE] '') (asc ''[SAFE] '') \<and>
   extract_decision (asc ''Dry roads.'' @ [10] @ asc ''[SAFE] '') =
     Inr \<lparr>decision = SAFE, subject = SUBJECT_YES, body = asc ''Dry roads.''\<rparr>"
  by (simp add: ends_with_line_def extract_decision_def decision_line_def strip_defs
      is_linebreak_def rsplit_head_def)

text \<open>
  Claim C2 says that a text with no line at all gives \<open>UNCLEAR\<close> and that no exception
  leaves the run. On the code, a run whose text service returns the empty completion
  ends with the \<open>IndexError\<close> of \<open>splitlines()[-1]\<close>, after the call of
  \<open>ai_generate_summary\<close> and before any call of \<open>send_email\<close>.
\<close>

theorem empty_completion_escapes:
  "main strptime_excerpt ascii_lower
     \<lparr>weekday = 2,
      http = Forecast_list [forecast_block (asc ''2024-05-01 06:00:00'') (PyInt 15)],
      chat = Content (asc '''')\<rparr> =
   \<lparr>calls = [Get_day_type, Fetch_weather_forecast, Match_time_slots, Summarize_forecast,
             Assess_weather_conditions, Ai_generate_summary],
    outcome = Inl IndexError\<rparr>"
  by (simp add: main_def fetch_weather_forecast_def match_time_slots_def
      strptime_excerpt_def forecast_block_def strftime_HM_def two_digits_def
      COMMUTE_TARGETS_def simplify_forecast_def ai_generate_summary_def
      avg_temp_def total_rain_def py_sum_def FLOAT_LIMIT_def
      extract_decision_def decision_line_def strip_defs split: prod.split)

text \<open>
  Claim C3 says that the tag line is removed from the body. On the code, the text that
  consists of the line \<open>[SAFE]\<close> alone is classified \<open>SAFE\<close> and keeps the tag as its
  body: \<open>rsplit("\n", 1)[0]\<close> returns the whole text when it has no line feed. (Where
  a line feed stands before the tag, \<open>tag_line_removed_after_line_feed\<close> above shows
  the body is the trimmed text before it.)
\<close>

theorem single_line_safe_keeps_tag:
  "extract_decision (asc ''[SAFE]'') =
     Inr \<lparr>decision = SAFE, subject = SUBJECT_YES, body = asc ''[SAFE]''\<rparr>"
  by (simp add: extract_decision_def decision_line_def strip_defs is_linebreak_def
      rsplit_head_def)

text \<open>
  Claim C10: a text that is the single line \<open>[SAFE]\<close> or \<open>[NOT SAFE]\<close> has no line
  feed, so \<open>rsplit("\n", 1)[0]\<close> is the text itself; the decision is the one of the
  tag and the body is still the tag.
\<close>

theorem one_line_tag_body_is_tag:
  "10 \<notin> set (asc ''[SAFE]'') \<and> rsplit_head (asc ''[SAFE]'') = asc ''[SAFE]'' \<and>
   map_sum id decision (extract_decision (asc ''[SAFE]'')) = Inr SAFE \<and>
   map_sum id body (extract_decision (asc ''[SAFE]'')) = Inr (asc ''[SAFE]'') \<and>
   10 \<notin> set (asc ''[NOT SAFE]'') \<and> rsplit_head (asc ''[NOT SAFE]'') = asc ''[NOT SAFE]'' \<and>
   map_sum id decision (extract_decision (asc ''[NOT SAFE]'')) = Inr NOT_SAFE \<and>
   map_sum id body (extract_decision (asc ''[NOT SAFE]'')) = Inr (asc ''[NOT SAFE]'')"
  by (simp add: extract_decision_def decision_line_def strip_defs is_linebreak_def
      rsplit_head_def)

section \<open>The safety assessor\<close>

text \<open>
  Each pass of the loop appends to the reasons and lowers the flag together, starting
  from \<open>(True, [])\<close>.
\<close>

lemma check_slot_snd:
  "snd (check_slot lower time data st) = snd st @ snd (check_slot lower time data (True, []))"
  by (simp add: check_slot_def Let_def)

lemma check_slot_fst:
  "fst (check_slot lower time data st) \<longleftrightarrow> fst st \<and> fst (check_slot lower time data (True, []))"
  by (simp add: check_slot_def Let_def)

lemma check_slot_flag:
  "fst (check_slot lower time data (True, [])) \<longleftrightarrow> snd (check_slot lower time data (True, [])) = []"
  by (simp add: check_slot_def Let_def)

lemma assess_loop_snd:
  "snd (assess_loop lower summary st) =
     snd st @ concat (map (\<lambda>(time, data). snd (check_slot lower time data (True, []))) summary)"
proof (induction summary arbitrary: st)
  case Nil
  show ?case by simp
next
  case (Cons p summary)
  obtain time data where p: "p = (time, data)" by (cases p)
  show ?case
    unfolding p by (simp add: Cons.IH check_slot_snd [of lower time data st])
qed

lemma assess_loop_flag:
  "fst st = (snd st = []) \<Longrightarrow>
   fst (assess_loop lower summary st) = (snd (assess_loop lower summary st) = [])"
proof (induction summary arbitrary: st)
  case Nil
  then show ?case by simp
next
  case (Cons p summary)
  obtain time data where p: "p = (time, data)" by (cases p)
  have "fst (check_slot lower time data st) = (snd (check_slot lower time data st) = [])"
    using Cons.prems check_slot_fst [of lower time data st]
      check_slot_snd [of lower time data st] check_slot_flag [of lower time data]
    by simp
  then show ?case
    unfolding p by (simp add: Cons.IH)
qed

lemma reasons_set:
  "set (snd (assess_weather_conditions lower summary)) =
     (\<Union>(time, data) \<in> set summary. set (snd (check_slot lower time data (True, []))))"
  by (auto simp: assess_weather_conditions_def assess_loop_snd)

text \<open>
  Claim C4: for every mapping of slots to summary records, the flag \<open>safe\<close> that
  \<open>assess_weather_conditions\<close> returns is false if and only if the list of reasons it
  returns is not empty.
\<close>

theorem safe_false_iff_reasons:
  "fst (assess_weather_conditions lower summary) = False \<longleftrightarrow>
   snd (assess_weather_conditions lower summary) \<noteq> []"
  using assess_loop_flag [of "(True, [])" lower summary]
  by (simp add: assess_weather_conditions_def)

text \<open>
  Claim C6: when the record of some slot has a rain accumulation of exactly 2 mm (as an
  \<open>int\<close> or as a \<open>float\<close>), the reasons contain the heavy-rain reason of that slot
  and \<open>safe\<close> is false: the threshold is inclusive.
\<close>

theorem rain_threshold_inclusive:
  assumes "(time, data) \<in> set summary" and "num (rain data) = 2"
  shows "Heavy_rain time (rain data) \<in> set (snd (assess_weather_conditions lower summary)) \<and>
         fst (assess_weather_conditions lower summary) = False"
proof -
  have "Heavy_rain time (rain data) \<in> set (snd (check_slot lower time data (True, [])))"
    using assms(2) by (simp add: check_slot_def Let_def)
  with assms(1) have r:
    "Heavy_rain time (rain data) \<in> set (snd (assess_weather_conditions lower summary))"
    unfolding reasons_set by blast
  then have "snd (assess_weather_conditions lower summary) \<noteq> []" by auto
  with r show ?thesis
    using assess_loop_flag [of "(True, [])" lower summary]
    by (simp add: assess_weather_conditions_def)
qed

theorem rain_threshold_inclusive_witness:
  "(asc ''06:00'', summary_of (PyInt 15) (PyFloat 2)) \<in>
     set [(asc ''06:00'', summary_of (PyInt 15) (PyFloat 2))] \<and>
   num (rain (summary_of (PyInt 15) (PyFloat 2))) = 2 \<and>
   Heavy_rain (asc ''06:00'') (PyFloat 2) \<in>
     set (snd (assess_weather_conditions ascii_lower
       [(asc ''06:00'', summary_of (PyInt 15) (PyFloat 2))])) \<and>
   fst (assess_weather_conditions ascii_lower
       [(asc ''06:00'', summary_of (PyInt 15) (PyFloat 2))]) = False"
proof -
  have h1: "(asc ''06:00'', summary_of (PyInt 15) (PyFloat 2)) \<in>
     set [(asc ''06:00'', summary_of (PyInt 15) (PyFloat 2))]"
    by simp
  have h2: "num (rain (summary_of (PyInt 15) (PyFloat 2))) = 2" by (simp add: summary_of_def)
  have h3: "rain (summary_of (PyInt 15) (PyFloat 2)) = PyFloat 2" by (simp add: summary_of_def)
  show ?thesis
    using h1 h2 h3 rain_threshold_inclusive [OF h1 h2, of ascii_lower] by simp
qed

text \<open>
  Claim C7: let \<open>summary'\<close> hold the items of \<open>summary\<close> and one more record under a
  slot that \<open>summary\<close> does not have, in any order. If \<open>safe\<close> is false for
  \<open>summary\<close> it is false for \<open>summary'\<close>, and every reason produced for \<open>summary\<close>
  is among the reasons produced for \<open>summary'\<close>.
\<close>

theorem assess_monotonic:
  assumes "k \<notin> fst ` set summary" and "set summary' = insert (k, r) (set summary)"
  shows "(fst (assess_weather_conditions lower summary) = False \<longrightarrow>
            fst (assess_weather_conditions lower summary') = False) \<and>
         set (snd (assess_weather_conditions lower summary)) \<subseteq>
           set (snd (assess_weather_conditions lower summary'))"
proof -
  have sub: "set (snd (assess_weather_conditions lower summary)) \<subseteq>
           set (snd (assess_weather_conditions lower summary'))"
    unfolding reasons_set assms(2) by blast
  have f: "fst (assess_weather_conditions lower s) = (snd (assess_weather_conditions lower s) = [])" for s
    using assess_loop_flag [of "(True, [])" lower s]
    by (simp add: assess_weather_conditions_def)
  show ?thesis using sub f [of summary] f [of summary'] by auto
qed

theorem assess_monotonic_witness:
  "asc ''09:00'' \<notin> fst ` set [(asc ''06:00'', summary_of (PyInt 3) (PyInt 0))] \<and>
   set [(asc ''06:00'', summary_of (PyInt 3) (PyInt 0)),
        (asc ''09:00'', summary_of (PyInt 15) (PyFloat 4))] =
     insert (asc ''09:00'', summary_of (PyInt 15) (PyFloat 4))
       (set [(asc ''06:00'', summary_of (PyInt 3) (PyInt 0))]) \<and>
   fst (assess_weather_conditions ascii_lower
          [(asc ''06:00'', summary_of (PyInt 3) (PyInt 0))]) = False \<and>
   fst (assess_weather_conditions ascii_lower
          [(asc ''06:00'', summary_of (PyInt 3) (PyInt 0)),
           (asc ''09:00'', summary_of (PyInt 15) (PyFloat 4))]) = False \<and>
   set (snd (assess_weather_conditions ascii_lower
          [(asc ''06:00'', summary_of (PyInt 3) (PyInt 0))])) \<subseteq>
     set (snd (assess_weather_conditions ascii_lower
          [(asc ''06:00'', summary_of (PyInt 3) (PyInt 0)),
           (asc ''09:00'', summary_of (PyInt 15) (PyFloat 4))]))"
proof -
  have h1: "asc ''09:00'' \<notin> fst ` set [(asc ''06:00'', summary_of (PyInt 3) (PyInt 0))]"
    by simp
  have h2: "set [(asc ''06:00'', summary_of (PyInt 3) (PyInt 0)),
                 (asc ''09:00'', summary_of (PyInt 15) (PyFloat 4))] =
     insert (asc ''09:00'', summary_of (PyInt 15) (PyFloat 4))
       (set [(asc ''06:00'', summary_of (PyInt 3) (PyInt 0))])"
    by auto
  have h3: "fst (assess_weather_conditions ascii_lower
                  [(asc ''06:00'', summary_of (PyInt 3) (PyInt 0))]) = False"
    by (simp add: assess_weather_conditions_def check_slot_def summary_of_def MIN_TEMP_def
        Let_def)
  show ?thesis
    using h1 h2 h3 assess_monotonic [OF h1 h2, of ascii_lower] by blast
qed

text \<open>
  Claim C8: for the empty mapping \<open>assess_weather_conditions\<close> returns \<open>safe = True\<close>
  and no reasons; it returns a value, not an error.
\<close>

theorem assess_empty: "assess_weather_conditions lower [] = (True, [])"
  by (simp add: assess_weather_conditions_def)

section \<open>The slot matcher\<close>

lemma map_of_dict_set: "map_of (dict_set k v d) = (map_of d)(k \<mapsto> v)"
  by (induction d) (auto simp: fun_eq_iff)

lemma keys_dict_set: "fst ` set (dict_set k v d) = insert k (fst ` set d)"
  by (simp add: dom_map_of_conv_image_fst [symmetric] map_of_dict_set)

lemma distinct_dict_set: "distinct (map fst d) \<Longrightarrow> distinct (map fst (dict_set k v d))"
proof (induction d)
  case Nil
  show ?case by simp
next
  case (Cons p d)
  obtain k' v' where p: "p = (k', v')" by (cases p)
  have "set (map fst (dict_set k v d)) = insert k (fst ` set d)"
    using keys_dict_set [of k v d] by simp
  then show ?case using Cons unfolding p by auto
qed

lemma match_loop_result:
  assumes "\<forall>e\<in>set forecast. \<exists>d. strptime (dt_txt e) = Inr d"
  shows "\<exists>results. match_loop strptime forecast target_times acc = Inr results \<and>
           (distinct (map fst acc) \<longrightarrow> distinct (map fst results)) \<and>
           (\<forall>L. map_of results L =
              (if L \<in> set target_times \<and> (\<exists>e\<in>set forecast. time_of_day strptime e = Inr L)
               then Some (last (filter (\<lambda>e. time_of_day strptime e = Inr L) forecast))
               else map_of acc L))"
  using assms
proof (induction forecast arbitrary: acc)
  case Nil
  show ?case by simp
next
  case (Cons e forecast)
  obtain d where d: "strptime (dt_txt e) = Inr d" using Cons.prems by auto
  have tod: "time_of_day strptime e = Inr (strftime_HM d)"
    by (simp add: time_of_day_def d)
  have rest: "\<forall>e\<in>set forecast. \<exists>d. strptime (dt_txt e) = Inr d" using Cons.prems by simp
  define acc' where
    "acc' = (if strftime_HM d \<in> set target_times then dict_set (strftime_HM d) e acc else acc)"
  obtain results where r: "match_loop strptime forecast target_times acc' = Inr results"
    and dist: "distinct (map fst acc') \<longrightarrow> distinct (map fst results)"
    and m: "\<forall>L. map_of results L =
              (if L \<in> set target_times \<and> (\<exists>e\<in>set forecast. time_of_day strptime e = Inr L)
               then Some (last (filter (\<lambda>e. time_of_day strptime e = Inr L) forecast))
               else map_of acc' L)"
    using Cons.IH [OF rest, of acc'] by blast
  have step: "match_loop strptime (e # forecast) target_times acc = Inr results"
    using r by (cases "strftime_HM d \<in> set target_times") (simp_all add: d acc'_def Let_def)
  have dist': "distinct (map fst acc) \<longrightarrow> distinct (map fst results)"
    using dist by (simp add: acc'_def distinct_dict_set)
  have "map_of results L =
          (if L \<in> set target_times \<and> (\<exists>x\<in>set (e # forecast). time_of_day strptime x = Inr L)
           then Some (last (filter (\<lambda>x. time_of_day strptime x = Inr L) (e # forecast)))
           else map_of acc L)" for L
  proof (cases "L \<in> set target_times \<and> (\<exists>x\<in>set forecast. time_of_day strptime x = Inr L)")
    case True
    then have "filter (\<lambda>x. time_of_day strptime x = Inr L) forecast \<noteq> []"
      by (auto simp: filter_empty_conv)
    then show ?thesis using True m by simp
  next
    case False
    then have f: "filter (\<lambda>x. time_of_day strptime x = Inr L) forecast = [] \<or> L \<notin> set target_times"
      by (auto simp: filter_empty_conv)
    have "map_of results L = map_of acc' L" using False m by auto
    then show ?thesis
      using False f tod by (auto simp: acc'_def map_of_dict_set)
  qed
  then show ?case using step dist' by blast
qed

lemma slot_matcher_only_targets:
  assumes "match_time_slots strptime forecast target_times = Inr results"
  shows "fst ` set results \<subseteq> set target_times"
proof -
  have "match_loop strptime forecast target_times acc = Inr results \<Longrightarrow>
        fst ` set results \<subseteq> set target_times \<union> fst ` set acc" for acc
  proof (induction forecast arbitrary: acc)
    case Nil
    then show ?case by auto
  next
    case (Cons e forecast)
    obtain d where d: "strptime (dt_txt e) = Inr d"
      using Cons.prems by (cases "strptime (dt_txt e)") simp_all
    show ?case
    proof (cases "strftime_HM d \<in> set target_times")
      case True
      then have "match_loop strptime forecast target_times (dict_set (strftime_HM d) e acc)
                   = Inr results"
        using Cons.prems by (simp add: d Let_def)
      from Cons.IH [OF this] True show ?thesis by (auto simp: keys_dict_set)
    next
      case False
      then have "match_loop strptime forecast target_times acc = Inr results"
        using Cons.prems by (simp add: d Let_def)
      from Cons.IH [OF this] show ?thesis .
    qed
  qed
  from this [of "[]"] assms show ?thesis by (simp add: match_time_slots_def)
qed

text \<open>
  Claim C5: for a forecast list whose stamps all parse, and a label \<open>L\<close> of the target
  times, \<open>match_time_slots\<close> returns a mapping with at most one entry per label; it has
  an entry under \<open>L\<close> if and only if the time of day of some entry of the list is
  \<open>L\<close>, and the entry stored under \<open>L\<close> is the last such entry of the list.
\<close>

theorem slot_matcher_last_wins:
  assumes "\<forall>e\<in>set forecast. \<exists>d. strptime (dt_txt e) = Inr d"
    and "L \<in> set target_times"
  shows "\<exists>results. match_time_slots strptime forecast target_times = Inr results \<and>
           distinct (map fst results) \<and>
           (L \<in> fst ` set results \<longleftrightarrow> (\<exists>e\<in>set forecast. time_of_day strptime e = Inr L)) \<and>
           (\<forall>e. (L, e) \<in> set results \<longrightarrow>
                e = last (filter (\<lambda>e. time_of_day strptime e = Inr L) forecast))"
proof -
  obtain results where r: "match_loop strptime forecast target_times [] = Inr results"
    and dist: "distinct (map fst results)"
    and m: "\<forall>L. map_of results L =
              (if L \<in> set target_times \<and> (\<exists>e\<in>set forecast. time_of_day strptime e = Inr L)
               then Some (last (filter (\<lambda>e. time_of_day strptime e = Inr L) forecast))
               else None)"
    using match_loop_result [OF assms(1), of target_times "[]"] by auto
  have k: "L \<in> fst ` set results \<longleftrightarrow> (\<exists>e\<in>set forecast. time_of_day strptime e = Inr L)"
    using m assms(2) by (simp add: dom_map_of_conv_image_fst [symmetric] dom_def)
  have v: "e = last (filter (\<lambda>e. time_of_day strptime e = Inr L) forecast)"
    if "(L, e) \<in> set results" for e
  proof -
    have "map_of results L = Some e" using that dist by simp
    then show ?thesis using m by (auto split: if_splits)
  qed
  show ?thesis using r dist k v by (auto simp: match_time_slots_def)
qed

theorem slot_matcher_last_wins_witness:
  "list_all (\<lambda>e. isl (strptime_excerpt (dt_txt e)) = False)
     [forecast_block (asc ''2024-05-01 03:00:00'') (PyInt 9),
      forecast_block (asc ''2024-05-01 06:00:00'') (PyInt 11),
      forecast_block (asc ''2024-05-02 06:00:00'') (PyFloat 12)] \<and>
   asc ''06:00'' \<in> set COMMUTE_TARGETS \<and>
   match_time_slots strptime_excerpt
     [forecast_block (asc ''2024-05-01 03:00:00'') (PyInt 9),
      forecast_block (asc ''2024-05-01 06:00:00'') (PyInt 11),
      forecast_block (asc ''2024-05-02 06:00:00'') (PyFloat 12)] COMMUTE_TARGETS =
     Inr [(asc ''06:00'', forecast_block (asc ''2024-05-02 06:00:00'') (PyFloat 12))] \<and>
   (\<exists>results.
      match_time_slots strptime_excerpt
        [forecast_block (asc ''2024-05-01 03:00:00'') (PyInt 9),
         forecast_block (asc ''2024-05-01 06:00:00'') (PyInt 11),
         forecast_block (asc ''2024-05-02 06:00:00'') (PyFloat 12)] COMMUTE_TARGETS = Inr results \<and>
      distinct (map fst results) \<and>
      (asc ''06:00'' \<in> fst ` set results \<longleftrightarrow>
         (\<exists>e\<in>set [forecast_block (asc ''2024-05-01 03:00:00'') (PyInt 9),
                    forecast_block (asc ''2024-05-01 06:00:00'') (PyInt 11),
                    forecast_block (asc ''2024-05-02 06:00:00'') (PyFloat 12)].
            time_of_day strptime_excerpt e = Inr (asc ''06:00''))) \<and>
      (\<forall>e. (asc ''06:00'', e) \<in> set results \<longrightarrow>
         e = last (filter (\<lambda>e. time_of_day strptime_excerpt e = Inr (asc ''06:00''))
               [forecast_block (asc ''2024-05-01 03:00:00'') (PyInt 9),
                forecast_block (asc ''2024-05-01 06:00:00'') (PyInt 11),
                forecast_block (asc ''2024-05-02 06:00:00'') (PyFloat 12)])))"
proof -
  have h1: "\<forall>e\<in>set [forecast_block (asc ''2024-05-01 03:00:00'') (PyInt 9),
               forecast_block (asc ''2024-05-01 06:00:00'') (PyInt 11),
               forecast_block (asc ''2024-05-02 06:00:00'') (PyFloat 12)].
      \<exists>d. strptime_excerpt (dt_txt e) = Inr d"
    by (simp add: forecast_block_def strptime_excerpt_def)
  have h2: "asc ''06:00'' \<in> set COMMUTE_TARGETS"
    by (simp add: COMMUTE_TARGETS_def)
  have h3: "match_time_slots strptime_excerpt
     [forecast_block (asc ''2024-05-01 03:00:00'') (PyInt 9),
      forecast_block (asc ''2024-05-01 06:00:00'') (PyInt 11),
      forecast_block (asc ''2024-05-02 06:00:00'') (PyFloat 12)] COMMUTE_TARGETS =
     Inr [(asc ''06:00'', forecast_block (asc ''2024-05-02 06:00:00'') (PyFloat 12))]"
    by (simp add: match_time_slots_def forecast_block_def strptime_excerpt_def
        strftime_HM_def two_digits_def COMMUTE_TARGETS_def)
  have h0: "list_all (\<lambda>e. isl (strptime_excerpt (dt_txt e)) = False)
     [forecast_block (asc ''2024-05-01 03:00:00'') (PyInt 9),
      forecast_block (asc ''2024-05-01 06:00:00'') (PyInt 11),
      forecast_block (asc ''2024-05-02 06:00:00'') (PyFloat 12)]"
    by (simp add: forecast_block_def strptime_excerpt_def)
  show ?thesis
    using h0 h2 h3 slot_matcher_last_wins [OF h1 h2] by blast
qed

section \<open>The digest and the mail\<close>

text \<open>
  The two calls of \<open>main\<close> that can raise before their own \<open>try\<close>: the digest on
  an integer beyond the range of a float, and \<open>send_email\<close> on a body with a lone
  surrogate.
\<close>

lemma avg_temp_huge_integer: "avg_temp [PyInt (10 ^ 400)] = Inl OverflowError"
  by (simp add: avg_temp_def py_sum_def FLOAT_LIMIT_def)

lemma py_sum_float_then_integers:
  "py_sum [PyFloat (1 / 2), PyInt (FLOAT_LIMIT - 1), PyInt (FLOAT_LIMIT - 1)] = Inr Inexact"
  by (simp add: py_sum_def FLOAT_LIMIT_def)

lemma py_sum_integers_then_float:
  "py_sum [PyInt (FLOAT_LIMIT - 1), PyInt (FLOAT_LIMIT - 1), PyFloat (1 / 2)] = Inl OverflowError"
  by (simp add: py_sum_def FLOAT_LIMIT_def)

lemma avg_temp_large_integers:
  "avg_temp [PyInt (FLOAT_LIMIT - 1), PyInt (FLOAT_LIMIT - 1)] = Inr ()"
  by (simp add: avg_temp_def py_sum_def FLOAT_LIMIT_def)

lemma send_email_ascii: "send_email subj (asc ''Could not retrieve forecast.'') = Inr ()"
  by (simp add: send_email_def unencodable_def)

lemma send_email_lone_surrogate:
  "send_email subj (asc ''Fine.'' @ [55296]) = Inl UnicodeEncodeError"
  by (simp add: send_email_def unencodable_def)

section \<open>A run without forecast data\<close>

text \<open>
  When the request raises a \<open>RequestException\<close>, \<open>fetch_weather_forecast\<close> returns
  \<open>None\<close> and the run calls \<open>send_email\<close> once, with the body
  \<open>Could not retrieve forecast.\<close>, calls neither \<open>match_time_slots\<close> nor
  \<open>ai_generate_summary\<close>, and returns normally.
\<close>

lemma request_exception_run:
  assumes "http w = Request_exception"
  shows "main strptime lower w =
           \<lparr>calls = [Get_day_type, Fetch_weather_forecast,
                     Send_email (asc ''Ride Assistant Error'')
                                (asc ''Could not retrieve forecast.'')],
            outcome = Inr ()\<rparr>"
  using assms
  by (simp add: main_def fetch_weather_forecast_def send_email_def unencodable_def)

text \<open>
  Claim C9 says that every failed fetch ends in one notification and a normal return.
  On the code, a response whose JSON object has no key \<open>list\<close> makes
  \<open>response.json()["list"]\<close> raise \<open>KeyError\<close>, which is not a
  \<open>RequestException\<close>: it leaves \<open>fetch_weather_forecast\<close> and \<open>main\<close>, and
  \<open>send_email\<close> is never called.
\<close>

theorem malformed_response_escapes:
  "main strptime lower \<lparr>weekday = d, http = No_list_key, chat = c\<rparr> =
     \<lparr>calls = [Get_day_type, Fetch_weather_forecast], outcome = Inl KeyError\<rparr>"
  by (simp add: main_def fetch_weather_forecast_def)

end
